theory Spec2Isabelle
  imports Main "HOL-Library.Sublist" "HOL-Library.Stream" "HOL-Library.Word"
begin

section \<open>Strings\<close>

text \<open>
  A Python \<open>str\<close> is modelled by the list of the bytes of its UTF-8 encoding. On
  well-formed texts equality, \<open>startswith\<close>, \<open>replace\<close> and \<open>in\<close> give the same
  answers on the bytes as on the code points. \<open>str.lower\<close> does not: it is the Unicode
  lower-casing of the standard library, whose tables are not part of the repository,
  and it is a parameter \<open>str_lower\<close> of every definition that calls it.
\<close>

text \<open>\<open>s.startswith(p)\<close>\<close>

definition startswith :: "string \<Rightarrow> string \<Rightarrow> bool" where
  "startswith s p = prefix p s"

text \<open>\<open>sub in s\<close> on strings: \<open>sub\<close> occurs in \<open>s\<close> as a contiguous block.\<close>

fun contains :: "string \<Rightarrow> string \<Rightarrow> bool" where
  "contains sub [] = (sub = [])"
| "contains sub (c # cs) = (prefix sub (c # cs) \<or> contains sub cs)"

text \<open>
  \<open>s.replace(old, new)\<close>: every non-overlapping occurrence of \<open>old\<close>, found
  from the left, is replaced. With an empty \<open>old\<close> Python puts \<open>new\<close> before
  every character and at the end.
\<close>

function str_replace :: "string \<Rightarrow> string \<Rightarrow> string \<Rightarrow> string" where
  "str_replace old new [] = (if old = [] then new else [])"
| "str_replace old new (c # cs) =
     (if old = [] then new @ concat (map (\<lambda>x. x # new) (c # cs))
      else if prefix old (c # cs) then new @ str_replace old new (drop (length old) (c # cs))
      else c # str_replace old new cs)"
  by pat_completeness auto
termination
  by (relation "measure (\<lambda>(old, new, s). length s)") auto

section \<open>Timestamps\<close>

text \<open>
  A \<open>datetime\<close> value: the calendar fields and, for an aware value, the UTC
  offset of its fixed-offset \<open>tzinfo\<close> in minutes (\<open>timezone.utc\<close> is offset 0;
  \<open>None\<close> is a naive value).
\<close>

record datetime =
  year :: nat
  month :: nat
  day :: nat
  hour :: nat
  minute :: nat
  second :: nat
  microsecond :: nat
  tzinfo :: "int option"

text \<open>
  The constructor of \<open>datetime\<close> refuses fields out of range, so every value
  the program holds satisfies \<open>valid_datetime\<close>.
\<close>

definition is_leap :: "nat \<Rightarrow> bool" where
  "is_leap y = (y mod 4 = 0 \<and> (y mod 100 \<noteq> 0 \<or> y mod 400 = 0))"

definition days_in_month :: "nat \<Rightarrow> nat \<Rightarrow> nat" where
  "days_in_month y m =
     (if m = 2 then (if is_leap y then 29 else 28)
      else if m = 4 \<or> m = 6 \<or> m = 9 \<or> m = 11 then 30 else 31)"

definition valid_offset :: "int option \<Rightarrow> bool" where
  "valid_offset tz = (case tz of None \<Rightarrow> True | Some off \<Rightarrow> - 1440 < off \<and> off < 1440)"

definition valid_datetime :: "datetime \<Rightarrow> bool" where
  "valid_datetime d =
     (1 \<le> year d \<and> year d \<le> 9999 \<and> 1 \<le> month d \<and> month d \<le> 12
      \<and> 1 \<le> day d \<and> day d \<le> days_in_month (year d) (month d)
      \<and> hour d < 24 \<and> minute d < 60 \<and> second d < 60 \<and> microsecond d < 1000000
      \<and> valid_offset (tzinfo d))"

text \<open>
  Decimal printing: \<open>fmt_d w n\<close> is \<open>"%0wd" % n\<close>, the decimal digits of \<open>n\<close>
  padded with zeros on the left to at least \<open>w\<close> characters.
\<close>

definition digit :: "nat \<Rightarrow> char" where
  "digit n = char_of (48 + n)"

fun digits :: "nat \<Rightarrow> string" where
  "digits n = (if n < 10 then [digit n] else digits (n div 10) @ [digit (n mod 10)])"

declare digits.simps [simp del]

definition zfill :: "nat \<Rightarrow> string \<Rightarrow> string" where
  "zfill w s = replicate (w - length s) CHR ''0'' @ s"

definition fmt_d :: "nat \<Rightarrow> nat \<Rightarrow> string" where
  "fmt_d w n = zfill w (digits n)"

text \<open>
  \<open>datetime.isoformat()\<close>: \<open>YYYY-MM-DDTHH:MM:SS\<close>, then \<open>.ffffff\<close> when the
  microsecond is not zero, then the offset \<open>+HH:MM\<close> or \<open>-HH:MM\<close> of an aware value.
\<close>

definition format_offset :: "int option \<Rightarrow> string" where
  "format_offset tz =
     (case tz of
        None \<Rightarrow> []
      | Some off \<Rightarrow>
          (if off < 0 then ''-'' else ''+'')
          @ fmt_d 2 (nat \<bar>off\<bar> div 60) @ '':'' @ fmt_d 2 (nat \<bar>off\<bar> mod 60))"

definition isoformat :: "datetime \<Rightarrow> string" where
  "isoformat d =
     fmt_d 4 (year d) @ ''-'' @ fmt_d 2 (month d) @ ''-'' @ fmt_d 2 (day d) @ ''T''
     @ fmt_d 2 (hour d) @ '':'' @ fmt_d 2 (minute d) @ '':'' @ fmt_d 2 (second d)
     @ (if microsecond d \<noteq> 0 then ''.'' @ fmt_d 6 (microsecond d) else [])
     @ format_offset (tzinfo d)"

text \<open>
  \<open>datetime.fromisoformat\<close>, on the format \<open>isoformat\<close> writes: the fields are
  read at their fixed positions, the optional fraction has six digits, the optional
  offset is a sign and \<open>HH:MM\<close>. \<open>None\<close> is the \<open>ValueError\<close>. The other
  ISO-8601 spellings newer Python versions also read are outside this model; the store
  only ever holds what \<open>isoformat\<close> wrote.
\<close>

definition isdigit :: "char \<Rightarrow> bool" where
  "isdigit c = (48 \<le> (of_char c :: nat) \<and> (of_char c :: nat) \<le> 57)"

definition parse_nat :: "string \<Rightarrow> nat option" where
  "parse_nat s =
     (if s \<noteq> [] \<and> list_all isdigit s
      then Some (foldl (\<lambda>a c. 10 * a + ((of_char c :: nat) - 48)) 0 s) else None)"

definition parse_fraction :: "string \<Rightarrow> (nat \<times> string) option" where
  "parse_fraction r =
     (case r of
        [] \<Rightarrow> Some (0, [])
      | c # cs \<Rightarrow>
          if c = CHR ''.'' then
            (if length cs < 6 then None
             else map_option (\<lambda>us. (us, drop 6 cs)) (parse_nat (take 6 cs)))
          else Some (0, r))"

definition parse_offset :: "string \<Rightarrow> int option option" where
  "parse_offset r =
     (case r of
        [] \<Rightarrow> Some None
      | c # cs \<Rightarrow>
          if (c = CHR ''+'' \<or> c = CHR ''-'') \<and> length cs = 5 \<and> cs ! 2 = CHR '':'' then
            (case (parse_nat (take 2 cs), parse_nat (drop 3 cs)) of
               (Some hh, Some mm) \<Rightarrow>
                 Some (Some ((if c = CHR ''-'' then - 1 else 1) * (int hh * 60 + int mm)))
             | _ \<Rightarrow> None)
          else None)"

definition fromisoformat :: "string \<Rightarrow> datetime option" where
  "fromisoformat s =
     (if length s < 19 \<or> s ! 4 \<noteq> CHR ''-'' \<or> s ! 7 \<noteq> CHR ''-'' \<or> s ! 10 \<noteq> CHR ''T''
         \<or> s ! 13 \<noteq> CHR '':'' \<or> s ! 16 \<noteq> CHR '':'' then None
      else
        (case (parse_nat (take 4 s), parse_nat (take 2 (drop 5 s)), parse_nat (take 2 (drop 8 s)),
               parse_nat (take 2 (drop 11 s)), parse_nat (take 2 (drop 14 s)),
               parse_nat (take 2 (drop 17 s)), parse_fraction (drop 19 s)) of
           (Some y, Some mo, Some dd, Some hh, Some mi, Some ss, Some (us, r)) \<Rightarrow>
             (case parse_offset r of
                Some tz \<Rightarrow>
                  (let d = \<lparr>year = y, month = mo, day = dd, hour = hh, minute = mi, second = ss,
                             microsecond = us, tzinfo = tz\<rparr>
                   in if valid_datetime d then Some d else None)
              | None \<Rightarrow> None)
         | _ \<Rightarrow> None))"

section \<open>Base64\<close>

type_synonym byte = "8 word"

text \<open>
  The standard alphabet \<open>A-Z a-z 0-9 + /\<close>, by index.
\<close>

definition b64char :: "nat \<Rightarrow> char" where
  "b64char n =
     (if n < 26 then char_of (65 + n)
      else if n < 52 then char_of (71 + n)
      else if n < 62 then char_of (n - 4)
      else if n = 62 then CHR ''+'' else CHR ''/'')"

text \<open>
  \<open>base64.b64encode\<close>: three bytes become four characters; a last group of one
  or two bytes is padded with \<open>=\<close>.
\<close>

fun b64encode :: "byte list \<Rightarrow> string" where
  "b64encode [] = []"
| "b64encode [a] =
     [b64char (unat a div 4), b64char (unat a mod 4 * 16), CHR ''='', CHR ''='']"
| "b64encode [a, b] =
     [b64char (unat a div 4), b64char (unat a mod 4 * 16 + unat b div 16),
      b64char (unat b mod 16 * 4), CHR ''='']"
| "b64encode (a # b # c # r) =
     [b64char (unat a div 4), b64char (unat a mod 4 * 16 + unat b div 16),
      b64char (unat b mod 16 * 4 + unat c div 64), b64char (unat c mod 64)] @ b64encode r"









text \<open>
  Decoding, used to state that the two encodings lose nothing: the index of a
  character in either alphabet, and the bytes of a padded or unpadded text. It is
  only applied to texts the encoders above produce.
\<close>

definition b64index :: "char \<Rightarrow> nat" where
  "b64index c =
     (let k = (of_char c :: nat) in
      if 65 \<le> k \<and> k \<le> 90 then k - 65
      else if 97 \<le> k \<and> k \<le> 122 then k - 71
      else if 48 \<le> k \<and> k \<le> 57 then k + 4
      else if k = 43 \<or> k = 45 then 62 else 63)"

fun b64decode :: "string \<Rightarrow> byte list" where
  "b64decode (c1 # c2 # c3 # c4 # r) =
     (if c3 = CHR ''='' then [of_nat (b64index c1 * 4 + b64index c2 div 16)]
      else if c4 = CHR ''='' then
        [of_nat (b64index c1 * 4 + b64index c2 div 16),
         of_nat (b64index c2 mod 16 * 16 + b64index c3 div 4)]
      else
        [of_nat (b64index c1 * 4 + b64index c2 div 16),
         of_nat (b64index c2 mod 16 * 16 + b64index c3 div 4),
         of_nat (b64index c3 mod 4 * 64 + b64index c4)] @ b64decode r)"
| "b64decode [c1, c2, c3] =
     [of_nat (b64index c1 * 4 + b64index c2 div 16),
      of_nat (b64index c2 mod 16 * 16 + b64index c3 div 4)]"
| "b64decode [c1, c2] = [of_nat (b64index c1 * 4 + b64index c2 div 16)]"
| "b64decode _ = []"

section \<open>Errors\<close>

text \<open>\<open>HTTPException(status_code, detail)\<close>; every \<open>raise\<close> is an \<open>Inl\<close>.\<close>

datatype HTTPException = HTTPException (status_code: nat) (detail: string)

definition Unauthenticated :: HTTPException where
  "Unauthenticated = HTTPException 401 ''Not authenticated''"

definition InvalidSession :: HTTPException where
  "InvalidSession = HTTPException 401 ''Invalid or expired token''"


definition NotFound :: HTTPException where
  "NotFound = HTTPException 404 ''Coupon not found''"

definition InvalidFileType :: HTTPException where
  "InvalidFileType = HTTPException 400 ''File must be an image''"

text \<open>
  An exception no handler catches (the \<open>ValueError\<close> of \<open>fromisoformat\<close>, an
  attribute read on \<open>None\<close>) is answered by the framework with status 500.
\<close>

definition ServerError :: HTTPException where
  "ServerError = HTTPException 500 ''Internal Server Error''"

section \<open>Models\<close>

text \<open>
  \<open>CouponCreate\<close> has the eight fields a client sends; \<open>Coupon\<close> adds \<open>id\<close> and
  \<open>created_at\<close>. The record \<open>Coupon\<close> is parametric in the representation of the
  timestamp: the model object holds a \<open>datetime\<close>, the stored document its ISO text.
  The field \<open>id\<close> is written \<open>id'\<close>.
\<close>

record CouponCreate =
  store_name :: string
  logo_url :: "string option"
  title :: string
  code :: string
  description :: string
  category :: string
  expiry_date :: string
  featured :: bool

record 'ts Coupon = CouponCreate +
  id' :: string
  created_at :: 'ts

type_synonym coupon = "datetime Coupon"

text \<open>
  A document of the collection \<open>db.coupons\<close>. Documents enter the collection only
  through \<open>create_coupon\<close>, which writes the ten keys of \<open>Coupon.model_dump()\<close> with
  \<open>created_at\<close> as text.
\<close>

type_synonym doc = "string Coupon"

text \<open>\<open>CouponUpdate\<close>: every field optional, \<open>None\<close> by default.\<close>

record CouponUpdate =
  upd_store_name :: "string option"
  upd_logo_url :: "string option"
  upd_title :: "string option"
  upd_code :: "string option"
  upd_description :: "string option"
  upd_category :: "string option"
  upd_expiry_date :: "string option"
  upd_featured :: "bool option"

text \<open>
  A field of the JSON body of a request: the key is missing, it is there with
  \<open>null\<close>, or it is there with a value. Validation against a field declared
  \<open>Optional[T] = None\<close> gives \<open>None\<close> for the first two.
\<close>

datatype 'a body_field = Absent | Null | Value 'a

fun validate_optional :: "'a body_field \<Rightarrow> 'a option" where
  "validate_optional Absent = None"
| "validate_optional Null = None"
| "validate_optional (Value v) = Some v"

definition validate_CouponUpdate ::
  "string body_field \<Rightarrow> string body_field \<Rightarrow> string body_field \<Rightarrow> string body_field \<Rightarrow>
   string body_field \<Rightarrow> string body_field \<Rightarrow> string body_field \<Rightarrow> bool body_field \<Rightarrow>
   CouponUpdate" where
  "validate_CouponUpdate sn lu ti co de ca ex fe =
     \<lparr>upd_store_name = validate_optional sn, upd_logo_url = validate_optional lu,
      upd_title = validate_optional ti, upd_code = validate_optional co,
      upd_description = validate_optional de, upd_category = validate_optional ca,
      upd_expiry_date = validate_optional ex, upd_featured = validate_optional fe\<rparr>"

text \<open>The values of \<open>CouponUpdate.model_dump()\<close>.\<close>

datatype field_value = VStr string | VBool bool | VNone

definition dump_str :: "string option \<Rightarrow> field_value" where
  "dump_str v = (case v of None \<Rightarrow> VNone | Some s \<Rightarrow> VStr s)"

definition dump_bool :: "bool option \<Rightarrow> field_value" where
  "dump_bool v = (case v of None \<Rightarrow> VNone | Some b \<Rightarrow> VBool b)"

definition model_dump :: "CouponUpdate \<Rightarrow> (string \<times> field_value) list" where
  "model_dump u =
     [(''store_name'', dump_str (upd_store_name u)),
      (''logo_url'', dump_str (upd_logo_url u)),
      (''title'', dump_str (upd_title u)),
      (''code'', dump_str (upd_code u)),
      (''description'', dump_str (upd_description u)),
      (''category'', dump_str (upd_category u)),
      (''expiry_date'', dump_str (upd_expiry_date u)),
      (''featured'', dump_bool (upd_featured u))]"


record AdminLoginResponse =
  token :: string
  message :: string


section \<open>Session store and bearer check\<close>

text \<open>
  An entry of the module-level dictionary \<open>admin_sessions\<close>:
  \<open>{"username": ..., "logged_in_at": ...}\<close>.
\<close>

record AdminSession =
  session_username :: string
  logged_in_at :: datetime

type_synonym sessions = "string \<rightharpoonup> AdminSession"

text \<open>
  \<open>verify_admin_token\<close>: the header is \<open>None\<close> when the request carries no
  \<open>Authorization\<close> header; \<open>not authorization\<close> also holds of the empty string.
\<close>

definition verify_admin_token :: "sessions \<Rightarrow> string option \<Rightarrow> HTTPException + string" where
  "verify_admin_token admin_sessions authorization =
     (case authorization of
        None \<Rightarrow> Inl Unauthenticated
      | Some a \<Rightarrow>
          if a = [] \<or> \<not> startswith a ''Bearer '' then Inl Unauthenticated
          else
            let token = str_replace ''Bearer '' [] a
            in if admin_sessions token = None then Inl InvalidSession else Inr token)"


section \<open>The document store\<close>

text \<open>
  The collection in its natural order, and the number of write operations
  (\<open>insert_one\<close>, \<open>update_one\<close>, \<open>delete_one\<close>) issued so far, so that a handler that
  issues none leaves the whole state as it was.
\<close>

record database =
  coupons :: "doc list"
  writes :: nat

text \<open>\<open>find_one({"id": coupon_id})\<close>: the first document with that id.\<close>

definition find_one :: "string \<Rightarrow> database \<Rightarrow> doc option" where
  "find_one cid db = List.find (\<lambda>d. id' d = cid) (coupons db)"

definition insert_one :: "doc \<Rightarrow> database \<Rightarrow> database" where
  "insert_one d db = db\<lparr>coupons := coupons db @ [d], writes := Suc (writes db)\<rparr>"

text \<open>
  \<open>{"$set": update_data}\<close> on one document, key by key. The keys and values come out
  of \<open>CouponUpdate.model_dump()\<close>, so a value has the type of its field; a value of
  another type, or \<open>None\<close> for a field that is not \<open>logo_url\<close>, never arrives and
  leaves the document as it is.
\<close>

fun set_field :: "string \<times> field_value \<Rightarrow> doc \<Rightarrow> doc" where
  "set_field (k, VStr s) d =
     (if k = ''id'' then d\<lparr>id' := s\<rparr>
      else if k = ''store_name'' then d\<lparr>store_name := s\<rparr>
      else if k = ''logo_url'' then d\<lparr>logo_url := Some s\<rparr>
      else if k = ''title'' then d\<lparr>title := s\<rparr>
      else if k = ''code'' then d\<lparr>code := s\<rparr>
      else if k = ''description'' then d\<lparr>description := s\<rparr>
      else if k = ''category'' then d\<lparr>category := s\<rparr>
      else if k = ''expiry_date'' then d\<lparr>expiry_date := s\<rparr>
      else if k = ''created_at'' then d\<lparr>created_at := s\<rparr>
      else d)"
| "set_field (k, VBool b) d = (if k = ''featured'' then d\<lparr>featured := b\<rparr> else d)"
| "set_field (k, VNone) d = (if k = ''logo_url'' then d\<lparr>logo_url := None\<rparr> else d)"

definition apply_set :: "(string \<times> field_value) list \<Rightarrow> doc \<Rightarrow> doc" where
  "apply_set update_data d = foldl (\<lambda>d kv. set_field kv d) d update_data"

fun update_first :: "string \<Rightarrow> (doc \<Rightarrow> doc) \<Rightarrow> doc list \<Rightarrow> doc list" where
  "update_first cid f [] = []"
| "update_first cid f (d # ds) = (if id' d = cid then f d # ds else d # update_first cid f ds)"

text \<open>\<open>update_one({"id": coupon_id}, {"$set": update_data})\<close>: the first match is updated.\<close>

definition update_one :: "string \<Rightarrow> (string \<times> field_value) list \<Rightarrow> database \<Rightarrow> database" where
  "update_one cid update_data db =
     db\<lparr>coupons := update_first cid (apply_set update_data) (coupons db),
        writes := Suc (writes db)\<rparr>"

fun delete_first :: "string \<Rightarrow> doc list \<Rightarrow> doc list" where
  "delete_first cid [] = []"
| "delete_first cid (d # ds) = (if id' d = cid then ds else d # delete_first cid ds)"

text \<open>\<open>delete_one({"id": coupon_id})\<close>: \<open>deleted_count\<close> and the store after it.\<close>

definition delete_one :: "string \<Rightarrow> database \<Rightarrow> nat \<times> database" where
  "delete_one cid db =
     ((if find_one cid db = None then 0 else 1),
      db\<lparr>coupons := delete_first cid (coupons db), writes := Suc (writes db)\<rparr>)"

section \<open>Reading documents\<close>

text \<open>
  The conversion every read route applies to a document: \<open>created_at\<close>, a string in
  the store, is parsed by \<open>fromisoformat\<close>; the other keys are returned as stored.
\<close>

definition with_created_at :: "'a Coupon \<Rightarrow> 'b \<Rightarrow> 'b Coupon" where
  "with_created_at c t =
     \<lparr>store_name = store_name c, logo_url = logo_url c, title = title c, code = code c,
      description = description c, category = category c, expiry_date = expiry_date c,
      featured = featured c, id' = id' c, created_at = t\<rparr>"

definition parse_created_at :: "doc \<Rightarrow> HTTPException + coupon" where
  "parse_created_at d =
     (case fromisoformat (created_at d) of
        None \<Rightarrow> Inl ServerError
      | Some t \<Rightarrow> Inr (with_created_at d t))"

text \<open>The loop over the fetched documents stops at the first one that does not parse.\<close>

fun parse_all :: "doc list \<Rightarrow> HTTPException + coupon list" where
  "parse_all [] = Inr []"
| "parse_all (d # ds) =
     (case parse_created_at d of
        Inl e \<Rightarrow> Inl e
      | Inr c \<Rightarrow> (case parse_all ds of Inl e \<Rightarrow> Inl e | Inr cs \<Rightarrow> Inr (c # cs)))"

section \<open>Public routes\<close>

text \<open>
  The query of \<open>get_coupons\<close>: \<open>category\<close> is added when the parameter is truthy (a
  non-empty string), \<open>featured\<close> when it is not \<open>None\<close>.
\<close>

record query =
  q_category :: "string option"
  q_featured :: "bool option"

definition build_query :: "string option \<Rightarrow> bool option \<Rightarrow> query" where
  "build_query category' featured' =
     \<lparr>q_category = (case category' of None \<Rightarrow> None | Some c \<Rightarrow> if c \<noteq> [] then Some c else None),
      q_featured = featured'\<rparr>"

definition matches :: "query \<Rightarrow> doc \<Rightarrow> bool" where
  "matches q d =
     ((case q_category q of None \<Rightarrow> True | Some c \<Rightarrow> category d = c)
      \<and> (case q_featured q of None \<Rightarrow> True | Some f \<Rightarrow> featured d = f))"

text \<open>\<open>db.coupons.find(query).to_list(1000)\<close>\<close>

definition find_to_list :: "query \<Rightarrow> nat \<Rightarrow> database \<Rightarrow> doc list" where
  "find_to_list q n db = take n (filter (matches q) (coupons db))"

text \<open>
  The condition of the search comprehension; \<open>str_lower\<close> is \<open>str.lower\<close>.
\<close>

definition search_hit :: "(string \<Rightarrow> string) \<Rightarrow> string \<Rightarrow> coupon \<Rightarrow> bool" where
  "search_hit str_lower search_lower c =
     (contains search_lower (str_lower (store_name c))
      \<or> contains search_lower (str_lower (title c))
      \<or> contains search_lower (str_lower (category c)))"

definition get_coupons ::
  "(string \<Rightarrow> string) \<Rightarrow> database \<Rightarrow> string option \<Rightarrow> string option \<Rightarrow> bool option
   \<Rightarrow> HTTPException + coupon list" where
  "get_coupons str_lower db category' search featured' =
     (let query = build_query category' featured'
      in (case parse_all (find_to_list query 1000 db) of
            Inl e \<Rightarrow> Inl e
          | Inr cs \<Rightarrow>
              (case search of
                 None \<Rightarrow> Inr cs
               | Some s \<Rightarrow>
                   if s \<noteq> [] then Inr (filter (search_hit str_lower (str_lower s)) cs)
                   else Inr cs)))"

definition get_coupon :: "database \<Rightarrow> string \<Rightarrow> HTTPException + coupon" where
  "get_coupon db coupon_id =
     (case find_one coupon_id db of
        None \<Rightarrow> Inl NotFound
      | Some d \<Rightarrow> parse_created_at d)"

section \<open>Admin routes\<close>

text \<open>
  \<open>create_coupon\<close>. \<open>new_id\<close> is the value of \<open>str(uuid.uuid4())\<close> and \<open>now\<close> that of
  \<open>datetime.now(timezone.utc)\<close> in this call. Each admin route returns its response
  and the store after the call.
\<close>

text \<open>
  \<open>Coupon(**coupon.model_dump())\<close>: the eight fields of the input, with the \<open>id\<close> and
  \<open>created_at\<close> the default factories give.
\<close>

definition Coupon_of :: "CouponCreate \<Rightarrow> string \<Rightarrow> datetime \<Rightarrow> coupon" where
  "Coupon_of c new_id now =
     \<lparr>store_name = store_name c, logo_url = logo_url c, title = title c, code = code c,
      description = description c, category = category c, expiry_date = expiry_date c,
      featured = featured c, id' = new_id, created_at = now\<rparr>"

definition create_coupon ::
  "sessions \<Rightarrow> database \<Rightarrow> string \<Rightarrow> datetime \<Rightarrow> CouponCreate \<Rightarrow> string option
   \<Rightarrow> (HTTPException + coupon) \<times> database" where
  "create_coupon admin_sessions db new_id now coupon authorization =
     (case verify_admin_token admin_sessions authorization of
        Inl e \<Rightarrow> (Inl e, db)
      | Inr _ \<Rightarrow>
          let coupon_obj = Coupon_of coupon new_id now;
              d = with_created_at coupon_obj (isoformat (created_at coupon_obj))
          in (Inr coupon_obj, insert_one d db))"

definition update_coupon ::
  "sessions \<Rightarrow> database \<Rightarrow> string \<Rightarrow> CouponUpdate \<Rightarrow> string option
   \<Rightarrow> (HTTPException + coupon) \<times> database" where
  "update_coupon admin_sessions db coupon_id coupon_update authorization =
     (case verify_admin_token admin_sessions authorization of
        Inl e \<Rightarrow> (Inl e, db)
      | Inr _ \<Rightarrow>
          (case find_one coupon_id db of
             None \<Rightarrow> (Inl NotFound, db)
           | Some existing \<Rightarrow>
               let update_data = filter (\<lambda>(k, v). v \<noteq> VNone) (model_dump coupon_update);
                   db' = (if update_data \<noteq> [] then update_one coupon_id update_data db else db)
               in (case find_one coupon_id db' of
                     None \<Rightarrow> (Inl ServerError, db')
                   | Some updated_coupon \<Rightarrow> (parse_created_at updated_coupon, db'))))"

definition delete_coupon ::
  "sessions \<Rightarrow> database \<Rightarrow> string \<Rightarrow> string option \<Rightarrow> (HTTPException + string) \<times> database" where
  "delete_coupon admin_sessions db coupon_id authorization =
     (case verify_admin_token admin_sessions authorization of
        Inl e \<Rightarrow> (Inl e, db)
      | Inr _ \<Rightarrow>
          (case delete_one coupon_id db of
             (deleted_count, db') \<Rightarrow>
               if deleted_count = 0 then (Inl NotFound, db')
               else (Inr ''Coupon deleted successfully'', db')))"

record UploadFile =
  content_type :: "string option"
  contents :: "byte list"

text \<open>
  \<open>upload_logo\<close> answers \<open>{"url": data_url}\<close>; the result is the value of \<open>url\<close>.
  The Base64 text is ASCII, so decoding it as UTF-8 changes nothing.
\<close>

definition upload_logo ::
  "sessions \<Rightarrow> database \<Rightarrow> UploadFile \<Rightarrow> string option \<Rightarrow> (HTTPException + string) \<times> database" where
  "upload_logo admin_sessions db file authorization =
     (case verify_admin_token admin_sessions authorization of
        Inl e \<Rightarrow> (Inl e, db)
      | Inr _ \<Rightarrow>
          (case content_type file of
             None \<Rightarrow> (Inl InvalidFileType, db)
           | Some ct \<Rightarrow>
               if ct = [] \<or> \<not> startswith ct ''image/'' then (Inl InvalidFileType, db)
               else
                 let base64_encoded = b64encode (contents file);
                     data_url = ''data:'' @ ct @ '';base64,'' @ base64_encoded
                 in (Inr data_url, db)))"

section \<open>Properties as the specification words them\<close>



text \<open>
  On ASCII text \<open>str.lower\<close> changes the letters \<open>A\<close> to \<open>Z\<close> and nothing else;
  \<open>ascii_lower\<close> is that mapping. Two ASCII characters are the same letter up to case
  when they are equal or one is the capital of the other.
\<close>

definition ascii_lower_char :: "char \<Rightarrow> char" where
  "ascii_lower_char c =
     (if 65 \<le> (of_char c :: nat) \<and> (of_char c :: nat) \<le> 90
      then char_of ((of_char c :: nat) + 32) else c)"

definition ascii_lower :: "string \<Rightarrow> string" where
  "ascii_lower s = map ascii_lower_char s"




text \<open>
  A partial update as the specification words it: a field that was provided takes
  the provided value, any other field keeps the stored one.
\<close>

definition provided_or_stored :: "'a option \<Rightarrow> 'a \<Rightarrow> 'a" where
  "provided_or_stored p stored = (case p of None \<Rightarrow> stored | Some v \<Rightarrow> v)"

definition merge_spec :: "CouponUpdate \<Rightarrow> doc \<Rightarrow> doc" where
  "merge_spec u d =
     d\<lparr>store_name := provided_or_stored (upd_store_name u) (store_name d),
       logo_url := provided_or_stored (map_option Some (upd_logo_url u)) (logo_url d),
       title := provided_or_stored (upd_title u) (title d),
       code := provided_or_stored (upd_code u) (code d),
       description := provided_or_stored (upd_description u) (description d),
       category := provided_or_stored (upd_category u) (category d),
       expiry_date := provided_or_stored (upd_expiry_date u) (expiry_date d),
       featured := provided_or_stored (upd_featured u) (featured d)\<rparr>"

text \<open>A sequence of update requests, run one after the other; the responses are dropped.\<close>

fun run_updates ::
  "sessions \<Rightarrow> database \<Rightarrow> (string \<times> CouponUpdate \<times> string option) list \<Rightarrow> database" where
  "run_updates admin_sessions db [] = db"
| "run_updates admin_sessions db ((coupon_id, coupon_update, authorization) # reqs) =
     run_updates admin_sessions
       (snd (update_coupon admin_sessions db coupon_id coupon_update authorization)) reqs"

section \<open>Sample data\<close>

text \<open>
  A session, two stored coupons and an upload, used to run the routes on concrete
  requests.
\<close>

definition sample_now :: datetime where
  "sample_now = \<lparr>year = 2025, month = 1, day = 2, hour = 3, minute = 4, second = 5,
     microsecond = 678, tzinfo = Some 0\<rparr>"

definition sample_sessions :: sessions where
  "sample_sessions = [''abc'' \<mapsto> \<lparr>session_username = ''raj2151'', logged_in_at = sample_now\<rparr>]"

definition nike_doc :: doc where
  "nike_doc = \<lparr>store_name = ''Nike'', logo_url = Some ''https://cdn.example/nike.png'',
     title = ''20% off'', code = ''NIKE20'', description = ''d'', category = ''Fashion'',
     expiry_date = ''2025-12-31'', featured = False, id' = ''c1'',
     created_at = ''2025-01-02T03:04:05.000678+00:00''\<rparr>"

definition pizza_doc :: doc where
  "pizza_doc = \<lparr>store_name = ''Pizza Hut'', logo_url = None,
     title = ''Free garlic bread'', code = ''GARLIC'', description = ''with any pizza'',
     category = ''Food'', expiry_date = ''2025-06-30'', featured = True, id' = ''c2'',
     created_at = ''2025-01-02T03:04:05+00:00''\<rparr>"

definition sample_db :: database where
  "sample_db = \<lparr>coupons = [nike_doc, pizza_doc], writes = 2\<rparr>"

definition adidas :: CouponCreate where
  "adidas = \<lparr>store_name = ''Adidas'', logo_url = None, title = ''10% off'', code = ''ADI10'',
     description = ''shoes'', category = ''Fashion'', expiry_date = ''2025-12-31'',
     featured = False\<rparr>"


definition no_fields :: CouponUpdate where
  "no_fields = \<lparr>upd_store_name = None, upd_logo_url = None, upd_title = None, upd_code = None,
     upd_description = None, upd_category = None, upd_expiry_date = None,
     upd_featured = None\<rparr>"






section \<open>Facts about the string operations\<close>




section \<open>Facts about timestamps\<close>

lemma isdigit_digit: "n < 10 \<Longrightarrow> isdigit (digit n)"
  by (simp add: isdigit_def digit_def)

lemma val_digit: "n < 10 \<Longrightarrow> (of_char (digit n) :: nat) - 48 = n"
  by (simp add: digit_def)

lemma all_digits: "list_all isdigit (digits n)"
  by (induction n rule: digits.induct) (subst digits.simps, simp add: isdigit_digit)

lemma foldl_digits:
  "foldl (\<lambda>a c. 10 * a + ((of_char c :: nat) - 48)) 0 (digits n) = n"
  by (induction n rule: digits.induct) (subst digits.simps, simp add: val_digit)

lemma digits_ne: "digits n \<noteq> []"
  by (subst digits.simps) simp

lemma foldl_zeros:
  "foldl (\<lambda>a c. 10 * a + ((of_char c :: nat) - 48)) 0 (replicate k CHR ''0'' @ s)
   = foldl (\<lambda>a c. 10 * a + ((of_char c :: nat) - 48)) 0 s"
  by (induction k) simp_all

lemma parse_nat_fmt_d: "parse_nat (fmt_d w n) = Some n"
proof -
  let ?s = "replicate (w - length (digits n)) CHR ''0'' @ digits n"
  have "list_all isdigit (replicate k CHR ''0'')" for k
    by (induction k) (simp_all add: isdigit_def)
  then have a: "list_all isdigit ?s"
    by (simp add: all_digits)
  have b: "?s \<noteq> []"
    by (simp add: digits_ne)
  have c: "foldl (\<lambda>a c. 10 * a + ((of_char c :: nat) - 48)) 0 ?s = n"
    by (simp only: foldl_zeros foldl_digits)
  show ?thesis
    unfolding parse_nat_def fmt_d_def zfill_def using a b c by simp
qed

lemma length_digits: "n < 10 ^ w \<Longrightarrow> 0 < w \<Longrightarrow> length (digits n) \<le> w"
proof (induction n arbitrary: w rule: digits.induct)
  case (1 n)
  show ?case
  proof (cases "n < 10")
    case True
    with 1 show ?thesis by (subst digits.simps) simp
  next
    case False
    then obtain v where w: "w = Suc v" "0 < v" using 1(2,3)
      by (cases w; cases "w - 1") auto
    have "n div 10 < 10 ^ v" using 1(2) w by (simp add: less_mult_imp_div_less mult.commute)
    from 1(1)[OF False this w(2)] show ?thesis using False w
      by (subst digits.simps) simp
  qed
qed

lemma length_fmt_d: "n < 10 ^ w \<Longrightarrow> 0 < w \<Longrightarrow> length (fmt_d w n) = w"
  using length_digits [of n w] by (simp add: fmt_d_def zfill_def)

lemma parse_offset_shape:
  assumes "length a = 2" "length b = 2" "parse_nat a = Some hh" "parse_nat b = Some mm"
    and "c = CHR ''+'' \<or> c = CHR ''-''"
  shows "parse_offset (c # a @ CHR '':'' # b)
    = Some (Some ((if c = CHR ''-'' then - 1 else 1) * (int hh * 60 + int mm)))"
proof -
  have t: "take 2 (a @ CHR '':'' # b) = a" using assms(1) by simp
  have d: "drop 3 (a @ CHR '':'' # b) = b" using assms(1) by simp
  have n: "(a @ CHR '':'' # b) ! 2 = CHR '':''" using assms(1) by (simp add: nth_append)
  have l: "length (a @ CHR '':'' # b) = 5" using assms(1,2) by simp
  show ?thesis
    unfolding parse_offset_def list.case t d n l using assms(3,4,5) by simp
qed

lemma parse_offset_format:
  assumes "valid_offset tz"
  shows "parse_offset (format_offset tz) = Some tz"
proof (cases tz)
  case None
  then show ?thesis by (simp add: parse_offset_def format_offset_def)
next
  case (Some off)
  with assms have r: "- 1440 < off" "off < 1440" by (simp_all add: valid_offset_def)
  define a where "a = nat \<bar>off\<bar>"
  have a: "a < 1440" "int a = \<bar>off\<bar>" using r by (simp_all add: a_def)
  have h1: "a div 60 < 10 ^ 2" using a(1) by simp
  have h2: "a mod 60 < 10 ^ 2" by (simp add: less_trans [OF mod_less_divisor])
  have l1: "length (fmt_d 2 (a div 60)) = 2" by (rule length_fmt_d [OF h1]) simp
  have l2: "length (fmt_d 2 (a mod 60)) = 2" by (rule length_fmt_d [OF h2]) simp
  have "int (a div 60) * 60 + int (a mod 60) = int a"
    by (simp add: zdiv_int zmod_int)
  then have v: "(if off < 0 then - 1 else 1) * (int (a div 60) * 60 + int (a mod 60)) = off"
    using a(2) by simp
  show ?thesis
  proof (cases "off < 0")
    case True
    have "format_offset tz = CHR ''-'' # fmt_d 2 (a div 60) @ CHR '':'' # fmt_d 2 (a mod 60)"
      using True by (simp add: Some format_offset_def a_def)
    then show ?thesis
      using parse_offset_shape [OF l1 l2 parse_nat_fmt_d parse_nat_fmt_d, of "CHR ''-''"] v True Some
      by simp
  next
    case False
    have "format_offset tz = CHR ''+'' # fmt_d 2 (a div 60) @ CHR '':'' # fmt_d 2 (a mod 60)"
      using False by (simp add: Some format_offset_def a_def)
    then show ?thesis
      using parse_offset_shape [OF l1 l2 parse_nat_fmt_d parse_nat_fmt_d, of "CHR ''+''"] v False Some
      by simp
  qed
qed

lemma len2E: "length a = 2 \<Longrightarrow> \<exists>x y. a = [x, y]"
  by (auto simp: length_Suc_conv numeral_2_eq_2)

lemma len4E: "length a = 4 \<Longrightarrow> \<exists>w x y z. a = [w, x, y, z]"
proof -
  assume "length a = 4"
  then have "length a = Suc (Suc (Suc (Suc 0)))" by simp
  then show ?thesis by (auto simp: length_Suc_conv)
qed

lemma fromisoformat_shape:
  assumes len: "length Y = 4" "length M = 2" "length D = 2" "length H = 2" "length Mi = 2"
      "length S = 2"
    and p: "parse_nat Y = Some y" "parse_nat M = Some mo" "parse_nat D = Some dd"
      "parse_nat H = Some hh" "parse_nat Mi = Some mi" "parse_nat S = Some ss"
    and f: "parse_fraction rest = Some (us, r)"
    and tz: "parse_offset r = Some tz"
    and v: "valid_datetime \<lparr>year = y, month = mo, day = dd, hour = hh, minute = mi,
              second = ss, microsecond = us, tzinfo = tz\<rparr>"
  shows "fromisoformat (Y @ CHR ''-'' # M @ CHR ''-'' # D @ CHR ''T'' # H @ CHR '':'' # Mi
            @ CHR '':'' # S @ rest)
         = Some \<lparr>year = y, month = mo, day = dd, hour = hh, minute = mi,
              second = ss, microsecond = us, tzinfo = tz\<rparr>"
proof -
  obtain y1 y2 y3 y4 where Y: "Y = [y1, y2, y3, y4]" using len4E [OF len(1)] by blast
  obtain m1 m2 where M: "M = [m1, m2]" using len2E [OF len(2)] by blast
  obtain d1 d2 where D: "D = [d1, d2]" using len2E [OF len(3)] by blast
  obtain h1 h2 where H: "H = [h1, h2]" using len2E [OF len(4)] by blast
  obtain i1 i2 where Mi: "Mi = [i1, i2]" using len2E [OF len(5)] by blast
  obtain s1 s2 where S: "S = [s1, s2]" using len2E [OF len(6)] by blast
  show ?thesis
    using p f tz v unfolding Y M D H Mi S fromisoformat_def
    by simp
qed

lemma parse_fraction_offset:
  "parse_fraction (format_offset tz) = Some (0, format_offset tz)"
  by (cases tz) (simp_all add: parse_fraction_def format_offset_def)

lemma parse_fraction_micro:
  assumes "us < 1000000"
  shows "parse_fraction (CHR ''.'' # fmt_d 6 us @ r) = Some (us, r)"
proof -
  have "us < 10 ^ 6" using assms by simp
  then have l: "length (fmt_d 6 us) = 6" by (rule length_fmt_d) simp
  then show ?thesis
    by (simp add: parse_fraction_def parse_nat_fmt_d)
qed

lemma parse_fraction_isoformat:
  assumes "us < 1000000"
  shows "parse_fraction ((if us \<noteq> 0 then ''.'' @ fmt_d 6 us else []) @ format_offset tz)
         = Some (us, format_offset tz)"
proof (cases "us = 0")
  case True
  then show ?thesis by (simp add: parse_fraction_offset)
next
  case False
  then show ?thesis using parse_fraction_micro [OF assms] by simp
qed

lemma fromisoformat_isoformat:
  assumes "valid_datetime d"
  shows "fromisoformat (isoformat d) = Some d"
proof -
  from assms have b: "year d < 10 ^ 4" "month d < 10 ^ 2" "day d < 10 ^ 2" "hour d < 10 ^ 2"
      "minute d < 10 ^ 2" "second d < 10 ^ 2" "microsecond d < 1000000" "valid_offset (tzinfo d)"
    by (simp_all add: valid_datetime_def days_in_month_def split: if_splits)
  have e: "\<lparr>year = year d, month = month d, day = day d, hour = hour d,
      minute = minute d, second = second d, microsecond = microsecond d, tzinfo = tzinfo d\<rparr> = d"
    by (cases d) simp
  have v: "valid_datetime \<lparr>year = year d, month = month d, day = day d, hour = hour d,
      minute = minute d, second = second d, microsecond = microsecond d, tzinfo = tzinfo d\<rparr>"
    using assms by (simp only: e)
  have "fromisoformat (fmt_d 4 (year d) @ CHR ''-'' # fmt_d 2 (month d) @ CHR ''-'' #
          fmt_d 2 (day d) @ CHR ''T'' # fmt_d 2 (hour d) @ CHR '':'' # fmt_d 2 (minute d)
          @ CHR '':'' # fmt_d 2 (second d)
          @ ((if microsecond d \<noteq> 0 then ''.'' @ fmt_d 6 (microsecond d) else [])
             @ format_offset (tzinfo d)))
        = Some \<lparr>year = year d, month = month d, day = day d, hour = hour d,
      minute = minute d, second = second d, microsecond = microsecond d, tzinfo = tzinfo d\<rparr>"
    by (rule fromisoformat_shape [OF
          length_fmt_d [OF b(1)] length_fmt_d [OF b(2)] length_fmt_d [OF b(3)]
          length_fmt_d [OF b(4)] length_fmt_d [OF b(5)] length_fmt_d [OF b(6)]
          parse_nat_fmt_d parse_nat_fmt_d parse_nat_fmt_d parse_nat_fmt_d parse_nat_fmt_d
          parse_nat_fmt_d parse_fraction_isoformat [OF b(7)] parse_offset_format [OF b(8)] v])
      simp_all
  then show ?thesis
    by (simp add: isoformat_def e)
qed

section \<open>Facts about Base64\<close>

lemma of_char_b64char:
  "n < 64 \<Longrightarrow> (of_char (b64char n) :: nat) =
     (if n < 26 then 65 + n else if n < 52 then 71 + n else if n < 62 then n - 4
      else if n = 62 then 43 else 47)"
  by (simp add: b64char_def)


lemma is_pad_iff: "c = CHR ''='' \<longleftrightarrow> (of_char c :: nat) = 61"
  using of_char_eq_iff [of c "CHR ''=''", where ?'a = nat] by simp

lemma b64index_b64char: "n < 64 \<Longrightarrow> b64index (b64char n) = n"
  by (auto simp: b64index_def of_char_b64char Let_def)


lemma b64char_not_pad: "n < 64 \<Longrightarrow> b64char n \<noteq> CHR ''=''"
  by (auto simp: is_pad_iff of_char_b64char)


lemma sextets_first_byte: fixes x y :: nat assumes "y < 256"
  shows "x div 4 * 4 + (x mod 4 * 16 + y div 16) div 16 = x"
proof -
  have "y div 16 < 16" using assms by arith
  then have "(x mod 4 * 16 + y div 16) div 16 = x mod 4" by simp
  then show ?thesis by simp
qed

lemma sextets_second_byte: fixes x y z :: nat assumes "y < 256" "z < 256"
  shows "(x mod 4 * 16 + y div 16) mod 16 * 16 + (y mod 16 * 4 + z div 64) div 4 = y"
proof -
  have a: "y div 16 < 16" using assms by arith
  have b: "z div 64 < 4" using assms by arith
  have "(x mod 4 * 16 + y div 16) mod 16 = y div 16" using a by simp
  moreover have "(y mod 16 * 4 + z div 64) div 4 = y mod 16" using b by simp
  ultimately show ?thesis by simp
qed

lemma sextets_second_byte_last: fixes x y :: nat assumes "y < 256"
  shows "(x mod 4 * 16 + y div 16) mod 16 * 16 + (y mod 16 * 4) div 4 = y"
proof -
  have a: "y div 16 < 16" using assms by arith
  have "(x mod 4 * 16 + y div 16) mod 16 = y div 16" using a by simp
  then show ?thesis by simp
qed

lemma sextets_third_byte: fixes y z :: nat assumes "z < 256"
  shows "(y mod 16 * 4 + z div 64) mod 4 * 64 + z mod 64 = z"
proof -
  have b: "z div 64 < 4" using assms by arith
  have "(y mod 16 * 4 + z div 64) mod 4 = z div 64" using b by simp
  then show ?thesis by simp
qed

lemma unat_byte: "unat (a :: byte) < 256"
  using unsigned_less [of a, where ?'a = nat] by simp

lemma of_nat_unat_byte: "(of_nat (unat (a :: byte)) :: byte) = a"
  by simp

lemma decode_first_byte:
  "(of_nat (unat a div 4 * 4 + (unat a mod 4 * 16 + unat (b :: byte) div 16) div 16) :: byte) = a"
  by (simp only: sextets_first_byte [OF unat_byte] of_nat_unat_byte)

lemma decode_second_byte:
  "(of_nat ((unat (a :: byte) mod 4 * 16 + unat b div 16) mod 16 * 16
       + (unat b mod 16 * 4 + unat (c :: byte) div 64) div 4) :: byte) = b"
  by (simp only: sextets_second_byte [OF unat_byte unat_byte] of_nat_unat_byte)

lemma decode_second_byte_last:
  "(of_nat ((unat (a :: byte) mod 4 * 16 + unat b div 16) mod 16 * 16
       + (unat b mod 16 * 4) div 4) :: byte) = b"
  by (simp only: sextets_second_byte_last [OF unat_byte] of_nat_unat_byte)

lemma decode_third_byte:
  "(of_nat ((unat (b :: byte) mod 16 * 4 + unat c div 64) mod 4 * 64 + unat c mod 64) :: byte) = c"
  by (simp only: sextets_third_byte [OF unat_byte] of_nat_unat_byte)

lemma sextet1_bound: "unat (a :: byte) div 4 < 64"
  using unat_byte [of a] by arith

lemma sextet2_bound: "unat (a :: byte) mod 4 * 16 + unat (b :: byte) div 16 < 64"
  using unat_byte [of b] by arith

lemma sextet2_last_bound: "unat (a :: byte) mod 4 * 16 < 64"
  by arith

lemma sextet3_bound: "unat (b :: byte) mod 16 * 4 + unat (c :: byte) div 64 < 64"
  using unat_byte [of c] by arith

lemma sextet3_last_bound: "unat (b :: byte) mod 16 * 4 < 64"
  by arith

lemma sextet4_bound: "unat (c :: byte) mod 64 < 64"
  by simp

lemma decode_first_byte_last: "(of_nat (unat a div 4 * 4 + unat a mod 4 * 16 div 16) :: byte) = a"
proof -
  have "unat a div 4 * 4 + unat a mod 4 * 16 div 16 = unat a" by simp
  then show ?thesis by (simp only: of_nat_unat_byte)
qed

lemma b64decode_b64encode: "b64decode (b64encode bs) = bs"
proof (induction bs rule: b64encode.induct)
  case 1
  show ?case by simp
next
  case (2 a)
  show ?case
    by (simp only: b64encode.simps b64decode.simps simp_thms if_True b64index_b64char [OF sextet1_bound]
        b64index_b64char [OF sextet2_last_bound] decode_first_byte_last)
next
  case (3 a b)
  have p: "b64char (unat b mod 16 * 4) \<noteq> CHR ''=''" by (rule b64char_not_pad [OF sextet3_last_bound])
  show ?case
    using p
    by (simp only: b64encode.simps b64decode.simps simp_thms if_True if_False b64index_b64char [OF sextet1_bound]
        b64index_b64char [OF sextet2_bound] b64index_b64char [OF sextet3_last_bound] decode_first_byte decode_second_byte_last)
next
  case (4 a b c r)
  have p: "b64char (unat b mod 16 * 4 + unat c div 64) \<noteq> CHR ''=''"
    "b64char (unat c mod 64) \<noteq> CHR ''=''"
    by (rule b64char_not_pad [OF sextet3_bound], rule b64char_not_pad [OF sextet4_bound])
  show ?case
    using p 4
    by (simp only: b64encode.simps b64decode.simps append_Cons append_Nil simp_thms if_False
        b64index_b64char [OF sextet1_bound] b64index_b64char [OF sextet2_bound] b64index_b64char [OF sextet3_bound]
        b64index_b64char [OF sextet4_bound] decode_first_byte decode_second_byte decode_third_byte)
qed












section \<open>Facts about authorization and login\<close>

lemma verify_admin_token_error_401:
  "verify_admin_token S auth = Inl e \<Longrightarrow> status_code e = 401"
  by (auto simp: verify_admin_token_def Unauthenticated_def InvalidSession_def Let_def
      split: option.splits if_splits)











section \<open>Facts about the store and partial updates\<close>

lemma apply_set_filter:
  "apply_set (filter (\<lambda>(k, v). v \<noteq> VNone) kvs) d
   = foldl (\<lambda>d kv. if snd kv = VNone then d else set_field kv d) d kvs"
  unfolding apply_set_def
  by (induction kvs arbitrary: d) (auto split: prod.splits)

lemma set_if_store_name:
  "(if dump_str p = VNone then d else set_field (''store_name'', dump_str p) d)
   = d\<lparr>store_name := provided_or_stored p (store_name d)\<rparr>"
  by (cases p) (simp_all add: dump_str_def provided_or_stored_def)

lemma set_if_logo_url:
  "(if dump_str p = VNone then d else set_field (''logo_url'', dump_str p) d)
   = d\<lparr>logo_url := provided_or_stored (map_option Some p) (logo_url d)\<rparr>"
  by (cases p) (simp_all add: dump_str_def provided_or_stored_def)

lemma set_if_title:
  "(if dump_str p = VNone then d else set_field (''title'', dump_str p) d)
   = d\<lparr>title := provided_or_stored p (title d)\<rparr>"
  by (cases p) (simp_all add: dump_str_def provided_or_stored_def)

lemma set_if_code:
  "(if dump_str p = VNone then d else set_field (''code'', dump_str p) d)
   = d\<lparr>code := provided_or_stored p (code d)\<rparr>"
  by (cases p) (simp_all add: dump_str_def provided_or_stored_def)

lemma set_if_description:
  "(if dump_str p = VNone then d else set_field (''description'', dump_str p) d)
   = d\<lparr>description := provided_or_stored p (description d)\<rparr>"
  by (cases p) (simp_all add: dump_str_def provided_or_stored_def)

lemma set_if_category:
  "(if dump_str p = VNone then d else set_field (''category'', dump_str p) d)
   = d\<lparr>category := provided_or_stored p (category d)\<rparr>"
  by (cases p) (simp_all add: dump_str_def provided_or_stored_def)

lemma set_if_expiry_date:
  "(if dump_str p = VNone then d else set_field (''expiry_date'', dump_str p) d)
   = d\<lparr>expiry_date := provided_or_stored p (expiry_date d)\<rparr>"
  by (cases p) (simp_all add: dump_str_def provided_or_stored_def)

lemma set_if_featured:
  "(if dump_bool p = VNone then d else set_field (''featured'', dump_bool p) d)
   = d\<lparr>featured := provided_or_stored p (featured d)\<rparr>"
  by (cases p) (simp_all add: dump_bool_def provided_or_stored_def)

lemmas set_if_field = set_if_store_name set_if_logo_url set_if_title set_if_code
  set_if_description set_if_category set_if_expiry_date set_if_featured

lemma apply_set_update_data:
  "apply_set (filter (\<lambda>(k, v). v \<noteq> VNone) (model_dump u)) d = merge_spec u d"
  unfolding apply_set_filter model_dump_def
  by (simp only: foldl.simps snd_conv set_if_field) (simp add: merge_spec_def)

lemma merge_spec_keeps:
  "id' (merge_spec u d) = id' d" "created_at (merge_spec u d) = created_at d"
  by (simp_all add: merge_spec_def)

lemma merge_spec_nothing:
  "merge_spec \<lparr>upd_store_name = None, upd_logo_url = None, upd_title = None, upd_code = None,
          upd_description = None, upd_category = None, upd_expiry_date = None,
          upd_featured = None\<rparr> d = d"
  by (simp add: merge_spec_def provided_or_stored_def)

lemma find_update_first:
  "List.find (\<lambda>d. id' d = cid) ds = Some d \<Longrightarrow> id' (f d) = cid \<Longrightarrow>
     List.find (\<lambda>d. id' d = cid) (update_first cid f ds) = Some (f d)"
  by (induction ds) (auto split: if_splits)

lemma update_first_same:
  "List.find (\<lambda>d. id' d = cid) ds = Some d \<Longrightarrow> f d = d \<Longrightarrow> update_first cid f ds = ds"
  by (induction ds) (auto split: if_splits)

lemma find_Some_id: "List.find (\<lambda>d. id' d = cid) ds = Some d \<Longrightarrow> id' d = cid"
  by (induction ds) (auto split: if_splits)

lemma update_first_list_update:
  "List.find (\<lambda>d. id' d = cid) ds = Some d \<Longrightarrow>
     \<exists>i < length ds. ds ! i = d \<and> (\<forall>j < i. id' (ds ! j) \<noteq> cid)
        \<and> update_first cid f ds = ds[i := f d]"
proof (induction ds)
  case Nil
  then show ?case by simp
next
  case (Cons a ds)
  show ?case
  proof (cases "id' a = cid")
    case True
    with Cons.prems have "a = d" by simp
    with True show ?thesis by (intro exI [of _ 0]) simp
  next
    case False
    with Cons.prems have "List.find (\<lambda>d. id' d = cid) ds = Some d" by simp
    from Cons.IH [OF this] obtain i where i: "i < length ds" "ds ! i = d"
      "\<forall>j < i. id' (ds ! j) \<noteq> cid" "update_first cid f ds = ds[i := f d]" by blast
    have "\<forall>j < Suc i. id' ((a # ds) ! j) \<noteq> cid"
      using i(3) False by (auto simp: nth_Cons split: nat.splits)
    with i False show ?thesis by (intro exI [of _ "Suc i"]) simp
  qed
qed

lemma update_first_map_id: "(\<And>d. id' (f d) = id' d) \<Longrightarrow> map id' (update_first cid f ds) = map id' ds"
  by (induction ds) auto

lemma update_first_map_created_at:
  "(\<And>d. created_at (f d) = created_at d) \<Longrightarrow>
     map created_at (update_first cid f ds) = map created_at ds"
  by (induction ds) auto

lemma dump_str_None_iff: "dump_str p = VNone \<longleftrightarrow> p = None"
  by (cases p) (simp_all add: dump_str_def)

lemma dump_bool_None_iff: "dump_bool p = VNone \<longleftrightarrow> p = None"
  by (cases p) (simp_all add: dump_bool_def)

lemma update_data_empty_iff:
  "filter (\<lambda>(k, v). v \<noteq> VNone) (model_dump u) = []
   \<longleftrightarrow> u = \<lparr>upd_store_name = None, upd_logo_url = None, upd_title = None, upd_code = None,
          upd_description = None, upd_category = None, upd_expiry_date = None,
          upd_featured = None\<rparr>"
  by (cases u) (simp add: model_dump_def filter_empty_conv dump_str_None_iff dump_bool_None_iff)

lemma update_coupon_found:
  assumes auth: "verify_admin_token S auth = Inr tok"
    and found: "find_one cid db = Some d"
  shows "update_coupon S db cid u auth =
      (parse_created_at (merge_spec u d),
       if filter (\<lambda>(k, v). v \<noteq> VNone) (model_dump u) = [] then db
       else db\<lparr>coupons := update_first cid (merge_spec u) (coupons db),
                writes := Suc (writes db)\<rparr>)"
proof (cases "filter (\<lambda>(k, v). v \<noteq> VNone) (model_dump u) = []")
  case True
  then have m: "merge_spec u d = d"
    by (simp only: update_data_empty_iff merge_spec_nothing)
  show ?thesis
    unfolding update_coupon_def
    by (simp only: auth found True m sum.case option.case Let_def simp_thms if_False if_True)
next
  case False
  have f: "apply_set (filter (\<lambda>(k, v). v \<noteq> VNone) (model_dump u)) = merge_spec u"
    by (rule ext) (rule apply_set_update_data)
  have i: "id' (merge_spec u d) = cid"
    using find_Some_id [OF found [unfolded find_one_def]] by (simp add: merge_spec_keeps)
  have g: "find_one cid (update_one cid (filter (\<lambda>(k, v). v \<noteq> VNone) (model_dump u)) db)
      = Some (merge_spec u d)"
    using found i unfolding find_one_def update_one_def f
    by (simp add: find_update_first)
  have h: "update_one cid (filter (\<lambda>(k, v). v \<noteq> VNone) (model_dump u)) db
     = db\<lparr>coupons := update_first cid (merge_spec u) (coupons db), writes := Suc (writes db)\<rparr>"
    unfolding update_one_def f ..
  show ?thesis
    unfolding update_coupon_def
    by (simp only: auth found False g sum.case option.case Let_def simp_thms if_False if_True h [symmetric])
qed

lemma update_coupon_not_found:
  "verify_admin_token S auth = Inr tok \<Longrightarrow> find_one cid db = None \<Longrightarrow>
     update_coupon S db cid u auth = (Inl NotFound, db)"
  by (simp add: update_coupon_def)

lemma update_coupon_store:
  assumes auth: "verify_admin_token S auth = Inr tok"
    and found: "find_one cid db = Some d"
  shows "coupons (snd (update_coupon S db cid u auth))
       = update_first cid (merge_spec u) (coupons db)"
proof (cases "filter (\<lambda>(k, v). v \<noteq> VNone) (model_dump u) = []")
  case True
  then have "merge_spec u d = d"
    by (simp only: update_data_empty_iff merge_spec_nothing)
  then have "update_first cid (merge_spec u) (coupons db) = coupons db"
    by (rule update_first_same [OF found [unfolded find_one_def]])
  with True show ?thesis
    by (simp add: update_coupon_found [OF auth found])
next
  case False
  then show ?thesis
    by (simp add: update_coupon_found [OF auth found])
qed

lemma update_coupon_keeps:
  "map id' (coupons (snd (update_coupon S db cid u auth))) = map id' (coupons db)
   \<and> map created_at (coupons (snd (update_coupon S db cid u auth))) = map created_at (coupons db)"
proof (cases "verify_admin_token S auth")
  case (Inl e)
  then show ?thesis by (simp add: update_coupon_def)
next
  case (Inr tok)
  show ?thesis
  proof (cases "find_one cid db")
    case None
    then show ?thesis by (simp add: update_coupon_not_found [OF Inr])
  next
    case (Some d)
    show ?thesis
      unfolding update_coupon_store [OF Inr Some]
      by (simp add: update_first_map_id update_first_map_created_at merge_spec_keeps)
  qed
qed

lemma find_append_fresh:
  "cid \<notin> id' ` set ds \<Longrightarrow> id' d = cid \<Longrightarrow> List.find (\<lambda>x. id' x = cid) (ds @ [d]) = Some d"
  by (induction ds) auto

lemma parse_created_at_isoformat:
  "valid_datetime now \<Longrightarrow>
     parse_created_at (with_created_at (Coupon_of c new_id now) (isoformat now))
       = Inr (Coupon_of c new_id now)"
  by (simp add: parse_created_at_def fromisoformat_isoformat with_created_at_def Coupon_of_def)

section \<open>Facts about listing\<close>

lemma filter_matches_featured:
  "filter (matches (build_query c (Some f))) ds
   = filter (matches (build_query c None)) (filter (\<lambda>d. featured d = f) ds)"
  by (induction ds) (auto simp: matches_def build_query_def)









lemma parse_all_length: "parse_all ds = Inr cs \<Longrightarrow> length cs = length ds"
  by (induction ds arbitrary: cs) (auto split: sum.splits)








section \<open>The sample data\<close>

lemma digits_lt10: "n < 10 \<Longrightarrow> digits n = [digit n]"
  by (subst digits.simps) simp

lemma digits_ge10: "10 \<le> n \<Longrightarrow> digits n = digits (n div 10) @ [digit (n mod 10)]"
  by (subst digits.simps) simp

lemma replicate_numeral: "replicate (numeral k) x = x # replicate (pred_numeral k) x"
  by (simp add: numeral_eq_Suc)

lemma sample_auth: "verify_admin_token sample_sessions (Some ''Bearer abc'') = Inr ''abc''"
  by (simp add: verify_admin_token_def startswith_def sample_sessions_def)

lemma sample_find_c1: "find_one ''c1'' sample_db = Some nike_doc"
  by (simp add: find_one_def sample_db_def nike_doc_def)

lemma sample_find_c2: "find_one ''c2'' sample_db = Some pizza_doc"
  by (simp add: find_one_def sample_db_def nike_doc_def pizza_doc_def)

lemma sample_valid: "valid_datetime sample_now"
  by (simp add: valid_datetime_def valid_offset_def days_in_month_def sample_now_def)

lemma iso_nike: "fromisoformat ''2025-01-02T03:04:05.000678+00:00'' = Some sample_now"
  by (simp add: fromisoformat_def parse_nat_def parse_fraction_def parse_offset_def
      isdigit_def valid_datetime_def valid_offset_def days_in_month_def is_leap_def sample_now_def)

lemma nike_time: "fromisoformat (created_at nike_doc) = Some sample_now"
  by (simp add: nike_doc_def iso_nike)

lemma iso_pizza:
  "fromisoformat ''2025-01-02T03:04:05+00:00'' = Some (sample_now\<lparr>microsecond := 0\<rparr>)"
  by (simp add: fromisoformat_def parse_nat_def parse_fraction_def parse_offset_def
      isdigit_def valid_datetime_def valid_offset_def days_in_month_def is_leap_def sample_now_def)

lemma pizza_time: "fromisoformat (created_at pizza_doc) = Some (sample_now\<lparr>microsecond := 0\<rparr>)"
  by (simp add: pizza_doc_def iso_pizza)

lemma isoformat_sample_now: "isoformat sample_now = ''2025-01-02T03:04:05.000678+00:00''"
  by (simp add: isoformat_def format_offset_def fmt_d_def zfill_def digits_lt10 digits_ge10 digit_def
    sample_now_def char_of_eq_iff replicate_numeral)

lemma update_coupon_no_fields:
  assumes "verify_admin_token S auth = Inr tok" and "find_one cid db = Some d"
  shows "update_coupon S db cid no_fields auth = (parse_created_at d, db)"
proof -
  have "filter (\<lambda>(k, v). v \<noteq> VNone) (model_dump no_fields) = []"
    unfolding no_fields_def by (simp only: update_data_empty_iff)
  moreover have "merge_spec no_fields d = d"
    unfolding no_fields_def by (rule merge_spec_nothing)
  ultimately show ?thesis
    by (simp only: update_coupon_found [OF assms] if_True simp_thms)
qed













lemma sample_loaded:
  "with_created_at nike_doc (the (fromisoformat (created_at nike_doc)))
     = with_created_at nike_doc sample_now"
  "with_created_at pizza_doc (the (fromisoformat (created_at pizza_doc)))
     = with_created_at pizza_doc (sample_now\<lparr>microsecond := 0\<rparr>)"
  by (simp_all add: nike_time pizza_time)


section \<open>C1: the bearer check\<close>

text \<open>
  C1. The specification has \<open>authorize\<close> succeed with token \<open>t\<close> exactly when the
  header is \<open>Bearer\<close>, a space, and \<open>t\<close>, with \<open>t\<close> registered, and fail with
  \<open>InvalidSession\<close> when the remainder after the prefix is not registered. The code
  removes every occurrence of the scheme from the header, not only the one in front:
  with the single session \<open>abc\<close> registered, the header \<open>Bearer Bearer abc\<close>, whose
  remainder \<open>Bearer abc\<close> is no registered token, is accepted and \<open>abc\<close> is returned.
\<close>

theorem verify_admin_token_nested_scheme:
  "verify_admin_token sample_sessions (Some ''Bearer Bearer abc'') = Inr ''abc''
   \<and> sample_sessions ''Bearer abc'' = None
   \<and> sample_sessions ''abc'' \<noteq> None"
  by (simp add: verify_admin_token_def startswith_def sample_sessions_def)

section \<open>C2: partial update\<close>

text \<open>
  C2, as amended. For an authorized request: \<open>update_coupon\<close> fails with \<open>NotFound\<close>
  and leaves the store as it was when no document has the id; otherwise the first
  document \<open>d\<close> with that id is replaced by \<open>merge_spec u d\<close>, in which every field the
  request gave a value other than \<open>null\<close> (an empty string and \<open>false\<close> included) has
  that value and every other field, omitted or \<open>null\<close>, keeps the stored one; the
  response is that document read back, and no other document changes.
\<close>

theorem update_coupon_applies_provided_fields:
  assumes auth: "verify_admin_token S auth = Inr tok"
  shows "(find_one cid db = None \<longrightarrow> update_coupon S db cid u auth = (Inl NotFound, db))
    \<and> (\<forall>d. find_one cid db = Some d \<longrightarrow>
          fst (update_coupon S db cid u auth) = parse_created_at (merge_spec u d)
        \<and> find_one cid (snd (update_coupon S db cid u auth)) = Some (merge_spec u d)
        \<and> (\<exists>i < length (coupons db). coupons db ! i = d
              \<and> coupons (snd (update_coupon S db cid u auth)) = (coupons db)[i := merge_spec u d]))"
proof (intro conjI impI allI)
  assume "find_one cid db = None"
  then show "update_coupon S db cid u auth = (Inl NotFound, db)"
    by (rule update_coupon_not_found [OF auth])
next
  fix d assume found: "find_one cid db = Some d"
  show "fst (update_coupon S db cid u auth) = parse_created_at (merge_spec u d)"
    by (simp add: update_coupon_found [OF auth found])
  have i: "id' (merge_spec u d) = cid"
    using find_Some_id [OF found [unfolded find_one_def]] by (simp add: merge_spec_keeps)
  show "find_one cid (snd (update_coupon S db cid u auth)) = Some (merge_spec u d)"
    unfolding find_one_def update_coupon_store [OF auth found]
    by (rule find_update_first [where f = "merge_spec u", OF found [unfolded find_one_def] i])
  show "\<exists>i < length (coupons db). coupons db ! i = d
      \<and> coupons (snd (update_coupon S db cid u auth)) = (coupons db)[i := merge_spec u d]"
    unfolding update_coupon_store [OF auth found]
    using update_first_list_update [OF found [unfolded find_one_def], of "merge_spec u"]
    by blast
qed

text \<open>
  On the sample store: the empty string and \<open>false\<close> are applied to the coupon
  \<open>c2\<close>, and an id that is not in the store gives \<open>NotFound\<close>.
\<close>

theorem update_coupon_applies_provided_fields_witness:
  "verify_admin_token sample_sessions (Some ''Bearer abc'') = Inr ''abc''
   \<and> find_one ''c2'' sample_db = Some pizza_doc
   \<and> find_one ''c2'' (snd (update_coupon sample_sessions sample_db ''c2''
          (validate_CouponUpdate (Value []) Absent Absent Absent Absent Absent Absent (Value False))
          (Some ''Bearer abc'')))
       = Some (pizza_doc\<lparr>store_name := [], featured := False\<rparr>)
   \<and> find_one ''zz'' sample_db = None
   \<and> update_coupon sample_sessions sample_db ''zz'' no_fields (Some ''Bearer abc'')
       = (Inl NotFound, sample_db)"
proof -
  have n: "find_one ''zz'' sample_db = None"
    by (simp add: find_one_def sample_db_def nike_doc_def pizza_doc_def)
  have m: "merge_spec
        (validate_CouponUpdate (Value []) Absent Absent Absent Absent Absent Absent (Value False))
        pizza_doc = pizza_doc\<lparr>store_name := [], featured := False\<rparr>"
    by (simp add: merge_spec_def validate_CouponUpdate_def provided_or_stored_def pizza_doc_def)
  show ?thesis
    using sample_auth sample_find_c2 n m
      update_coupon_applies_provided_fields [OF sample_auth, of "''c2''" sample_db
        "validate_CouponUpdate (Value []) Absent Absent Absent Absent Absent Absent (Value False)"]
      update_coupon_applies_provided_fields [OF sample_auth, of "''zz''" sample_db no_fields]
    by simp
qed

text \<open>
  The claim as stated fails: a request that gives \<open>logo_url\<close> as \<open>null\<close> is answered
  exactly as one that omits it, and the stored logo stays.
\<close>

theorem update_coupon_null_is_not_applied:
  "update_coupon sample_sessions sample_db ''c1''
      (validate_CouponUpdate Absent Null Absent Absent Absent Absent Absent Absent)
      (Some ''Bearer abc'')
     = update_coupon sample_sessions sample_db ''c1''
      (validate_CouponUpdate Absent Absent Absent Absent Absent Absent Absent Absent)
      (Some ''Bearer abc'')
   \<and> map_option logo_url (find_one ''c1'' (snd (update_coupon sample_sessions sample_db ''c1''
        (validate_CouponUpdate Absent Null Absent Absent Absent Absent Absent Absent)
        (Some ''Bearer abc''))))
     = Some (Some ''https://cdn.example/nike.png'')"
proof -
  have v: "validate_CouponUpdate Absent Null Absent Absent Absent Absent Absent Absent = no_fields"
    "validate_CouponUpdate Absent Absent Absent Absent Absent Absent Absent Absent = no_fields"
    by (simp_all add: validate_CouponUpdate_def no_fields_def)
  have u: "update_coupon sample_sessions sample_db ''c1'' no_fields (Some ''Bearer abc'')
      = (parse_created_at nike_doc, sample_db)"
    by (rule update_coupon_no_fields [OF sample_auth sample_find_c1])
  show ?thesis
    unfolding v u by (simp add: sample_find_c1) (simp add: nike_doc_def)
qed

section \<open>C3: listing\<close>



section \<open>C4: login\<close>




section \<open>C5: failed authorization\<close>

text \<open>
  C5. When \<open>verify_admin_token\<close> fails on a request (no header, a header without
  the prefix, or a token that is not registered), the error has status 401 and each
  of \<open>create_coupon\<close>, \<open>update_coupon\<close>, \<open>delete_coupon\<close> and \<open>upload_logo\<close> answers
  with that error and returns the store as it was, its count of writes included.
\<close>

theorem failed_authorization_short_circuits:
  assumes "verify_admin_token S auth = Inl e"
  shows "status_code e = 401
    \<and> create_coupon S db new_id now c auth = (Inl e, db)
    \<and> update_coupon S db cid u auth = (Inl e, db)
    \<and> delete_coupon S db cid auth = (Inl e, db)
    \<and> upload_logo S db file auth = (Inl e, db)"
  using assms verify_admin_token_error_401 [OF assms]
  by (simp add: create_coupon_def update_coupon_def delete_coupon_def upload_logo_def)

text \<open>The header \<open>Token abc\<close> on the sample store.\<close>

theorem failed_authorization_short_circuits_witness:
  "verify_admin_token sample_sessions (Some ''Token abc'') = Inl Unauthenticated
   \<and> create_coupon sample_sessions sample_db ''c3'' sample_now adidas (Some ''Token abc'')
       = (Inl Unauthenticated, sample_db)
   \<and> update_coupon sample_sessions sample_db ''c1'' no_fields (Some ''Token abc'')
       = (Inl Unauthenticated, sample_db)
   \<and> delete_coupon sample_sessions sample_db ''c1'' (Some ''Token abc'')
       = (Inl Unauthenticated, sample_db)
   \<and> upload_logo sample_sessions sample_db \<lparr>content_type = Some ''image/png'', contents = []\<rparr>
         (Some ''Token abc'') = (Inl Unauthenticated, sample_db)"
proof -
  have h: "verify_admin_token sample_sessions (Some ''Token abc'') = Inl Unauthenticated"
    by (simp add: verify_admin_token_def startswith_def)
  show ?thesis
    using h failed_authorization_short_circuits [OF h, of sample_db "''c3''" sample_now adidas
        "''c1''" no_fields "\<lparr>content_type = Some ''image/png'', contents = []\<rparr>"]
    by simp
qed

section \<open>C6: create, then get\<close>

text \<open>
  C6. For an authorized request, an id that no stored document has yet and a valid
  timestamp: \<open>create_coupon\<close> answers the record made of the eight fields of the input,
  the new id and the timestamp; \<open>get_coupon\<close> on that id, in the store after the call,
  answers the same record; the document stored under the id holds the timestamp as
  its \<open>isoformat\<close> text, and \<open>fromisoformat\<close> reads that text back to the very same
  timestamp, microsecond and UTC offset included.
\<close>

theorem get_after_create:
  assumes auth: "verify_admin_token S auth = Inr tok"
    and fresh: "new_id \<notin> id' ` set (coupons db)"
    and valid: "valid_datetime now"
  shows "fst (create_coupon S db new_id now c auth)
        = Inr \<lparr>store_name = store_name c, logo_url = logo_url c, title = title c, code = code c,
               description = description c, category = category c,
               expiry_date = expiry_date c, featured = featured c,
               id' = new_id, created_at = now\<rparr>
    \<and> get_coupon (snd (create_coupon S db new_id now c auth)) new_id
        = fst (create_coupon S db new_id now c auth)
    \<and> map_option created_at (find_one new_id (snd (create_coupon S db new_id now c auth)))
        = Some (isoformat now)
    \<and> fromisoformat (isoformat now) = Some now"
proof -
  let ?d = "with_created_at (Coupon_of c new_id now) (isoformat now)"
  have c: "create_coupon S db new_id now c auth = (Inr (Coupon_of c new_id now), insert_one ?d db)"
    using auth by (simp add: create_coupon_def Coupon_of_def Let_def)
  have i: "id' ?d = new_id" by (simp add: with_created_at_def Coupon_of_def)
  have f: "find_one new_id (insert_one ?d db) = Some ?d"
    unfolding find_one_def insert_one_def using find_append_fresh [OF fresh i] by simp
  have g: "get_coupon (insert_one ?d db) new_id = Inr (Coupon_of c new_id now)"
    unfolding get_coupon_def f using parse_created_at_isoformat [OF valid] by simp
  have t: "created_at ?d = isoformat now" by (simp add: with_created_at_def)
  show ?thesis
    unfolding c fst_conv snd_conv f g
    using t fromisoformat_isoformat [OF valid] by (simp add: Coupon_of_def)
qed

text \<open>Creating the Adidas coupon under the id \<open>c3\<close> in the sample store.\<close>

theorem get_after_create_witness:
  "verify_admin_token sample_sessions (Some ''Bearer abc'') = Inr ''abc''
   \<and> ''c3'' \<notin> id' ` set (coupons sample_db)
   \<and> valid_datetime sample_now
   \<and> get_coupon (snd (create_coupon sample_sessions sample_db ''c3'' sample_now adidas
          (Some ''Bearer abc''))) ''c3''
       = Inr \<lparr>store_name = ''Adidas'', logo_url = None, title = ''10% off'', code = ''ADI10'',
               description = ''shoes'', category = ''Fashion'', expiry_date = ''2025-12-31'',
               featured = False, id' = ''c3'', created_at = sample_now\<rparr>"
proof -
  have fresh: "''c3'' \<notin> id' ` set (coupons sample_db)"
    by (simp add: sample_db_def nike_doc_def pizza_doc_def)
  show ?thesis
    using sample_auth fresh sample_valid
      get_after_create [OF sample_auth fresh sample_valid, of adidas]
    by (simp add: adidas_def)
qed

section \<open>C7: update without fields\<close>



section \<open>C8: id and created_at are immutable\<close>

text \<open>
  C8. After any sequence of update requests, authorized or not, on existing ids or
  not, every document of the store has the \<open>id\<close> and the \<open>created_at\<close> it had before.
\<close>

theorem updates_keep_id_and_created_at:
  "map id' (coupons (run_updates S db reqs)) = map id' (coupons db)
   \<and> map created_at (coupons (run_updates S db reqs)) = map created_at (coupons db)"
proof (induction reqs arbitrary: db)
  case Nil
  show ?case by simp
next
  case (Cons r reqs)
  obtain cid u auth where r: "r = (cid, u, auth)" by (cases r) auto
  show ?case
    unfolding r run_updates.simps
    using Cons.IH [of "snd (update_coupon S db cid u auth)"] update_coupon_keeps [of S db cid u auth]
    by simp
qed

text \<open>Two updates on the sample store.\<close>

theorem updates_keep_id_and_created_at_witness:
  "map id' (coupons (run_updates sample_sessions sample_db
        [(''c1'', no_fields\<lparr>upd_title := Some ''25% off''\<rparr>, Some ''Bearer abc''),
         (''c2'', no_fields\<lparr>upd_featured := Some False\<rparr>, Some ''Bearer abc'')]))
     = [''c1'', ''c2'']
   \<and> map created_at (coupons (run_updates sample_sessions sample_db
        [(''c1'', no_fields\<lparr>upd_title := Some ''25% off''\<rparr>, Some ''Bearer abc''),
         (''c2'', no_fields\<lparr>upd_featured := Some False\<rparr>, Some ''Bearer abc'')]))
     = [''2025-01-02T03:04:05.000678+00:00'', ''2025-01-02T03:04:05+00:00'']"
  using updates_keep_id_and_created_at [of sample_sessions sample_db
        "[(''c1'', no_fields\<lparr>upd_title := Some ''25% off''\<rparr>, Some ''Bearer abc''),
         (''c2'', no_fields\<lparr>upd_featured := Some False\<rparr>, Some ''Bearer abc'')]"]
  by (simp add: sample_db_def nike_doc_def pizza_doc_def)

section \<open>C9: logo upload\<close>

text \<open>
  C9. For an authorized request: \<open>upload_logo\<close> fails with \<open>InvalidFileType\<close>, status
  400, exactly when the declared content type is missing or does not start with
  \<open>image/\<close>; otherwise it answers \<open>data:\<close>, the content type, \<open>;base64,\<close> and the
  Base64 text of the content, from which the whole content can be decoded. The store
  is returned as it was in both cases.
\<close>

theorem upload_logo_data_url:
  assumes "verify_admin_token S auth = Inr tok"
  shows "upload_logo S db file auth =
      ((case content_type file of
          None \<Rightarrow> Inl InvalidFileType
        | Some ct \<Rightarrow>
            if startswith ct ''image/''
            then Inr (''data:'' @ ct @ '';base64,'' @ b64encode (contents file))
            else Inl InvalidFileType), db)
    \<and> status_code InvalidFileType = 400
    \<and> b64decode (b64encode (contents file)) = contents file"
proof -
  have "\<not> startswith [] ''image/''" by (simp add: startswith_def)
  then show ?thesis
    using assms
    by (auto simp: upload_logo_def InvalidFileType_def b64decode_b64encode Let_def
        split: option.splits)
qed

text \<open>A PNG upload of the three bytes \<open>Man\<close>, and a text upload.\<close>

theorem upload_logo_data_url_witness:
  "verify_admin_token sample_sessions (Some ''Bearer abc'') = Inr ''abc''
   \<and> upload_logo sample_sessions sample_db
        \<lparr>content_type = Some ''image/png'', contents = [77, 97, 110]\<rparr> (Some ''Bearer abc'')
       = (Inr ''data:image/png;base64,TWFu'', sample_db)
   \<and> upload_logo sample_sessions sample_db
        \<lparr>content_type = Some ''text/plain'', contents = [77, 97, 110]\<rparr> (Some ''Bearer abc'')
       = (Inl InvalidFileType, sample_db)
   \<and> upload_logo sample_sessions sample_db
        \<lparr>content_type = None, contents = [77, 97, 110]\<rparr> (Some ''Bearer abc'')
       = (Inl InvalidFileType, sample_db)"
proof -
  note A = upload_logo_data_url [OF sample_auth, of sample_db
        "\<lparr>content_type = Some ''image/png'', contents = [77, 97, 110]\<rparr>"]
  note B = upload_logo_data_url [OF sample_auth, of sample_db
        "\<lparr>content_type = Some ''text/plain'', contents = [77, 97, 110]\<rparr>"]
  note C = upload_logo_data_url [OF sample_auth, of sample_db
        "\<lparr>content_type = None, contents = [77, 97, 110]\<rparr>"]
  show ?thesis
    using sample_auth A B C
    by (simp add: startswith_def b64char_def char_of_eq_iff)
qed

section \<open>C10: empty parameters of the list route\<close>

text \<open>
  C10. In \<open>get_coupons\<close> an empty \<open>category\<close> is treated as a missing one and an
  empty \<open>search\<close> as a missing one, while \<open>featured = false\<close> is a filter: the answer
  is that of the same request without \<open>featured\<close> on the store restricted to the
  documents that are not featured.
\<close>

theorem get_coupons_empty_parameter_is_absent:
  "get_coupons str_lower db (Some []) s f = get_coupons str_lower db None s f
   \<and> get_coupons str_lower db c (Some []) f = get_coupons str_lower db c None f
   \<and> get_coupons str_lower db c s (Some False)
       = get_coupons str_lower (db\<lparr>coupons := filter (\<lambda>d. featured d = False) (coupons db)\<rparr>) c s None"
proof -
  have a: "get_coupons str_lower db (Some []) s f = get_coupons str_lower db None s f"
    by (simp add: get_coupons_def build_query_def)
  have b: "get_coupons str_lower db c (Some []) f = get_coupons str_lower db c None f"
    by (simp add: get_coupons_def split: sum.splits)
  have "find_to_list (build_query c (Some False)) 1000 db
      = find_to_list (build_query c None) 1000
          (db\<lparr>coupons := filter (\<lambda>d. featured d = False) (coupons db)\<rparr>)"
    by (simp add: find_to_list_def filter_matches_featured del: filter_filter)
  then have c: "get_coupons str_lower db c s (Some False)
      = get_coupons str_lower (db\<lparr>coupons := filter (\<lambda>d. featured d = False) (coupons db)\<rparr>) c s None"
    by (simp only: get_coupons_def Let_def)
  from a b c show ?thesis by (intro conjI)
qed

text \<open>
  On the sample store \<open>featured = false\<close> gives the Nike coupon only, no parameter
  gives both.
\<close>

theorem get_coupons_empty_parameter_is_absent_witness:
  "get_coupons ascii_lower sample_db (Some []) (Some []) (Some False) = get_coupons ascii_lower sample_db None None (Some False)
   \<and> get_coupons ascii_lower sample_db None None (Some False) = Inr [with_created_at nike_doc sample_now]
   \<and> get_coupons ascii_lower sample_db None None None
       = Inr [with_created_at nike_doc sample_now,
              with_created_at pizza_doc (sample_now\<lparr>microsecond := 0\<rparr>)]"
proof -
  have a: "get_coupons ascii_lower sample_db None None None
       = Inr [with_created_at nike_doc sample_now,
              with_created_at pizza_doc (sample_now\<lparr>microsecond := 0\<rparr>)]"
    by (simp add: get_coupons_def find_to_list_def build_query_def matches_def sample_db_def
        parse_created_at_def nike_time pizza_time)
  have f: "filter (\<lambda>d. featured d = False) (coupons sample_db) = [nike_doc]"
    by (simp add: sample_db_def nike_doc_def pizza_doc_def)
  have b: "get_coupons ascii_lower (sample_db\<lparr>coupons := [nike_doc]\<rparr>) None None None
       = Inr [with_created_at nike_doc sample_now]"
    by (simp add: get_coupons_def find_to_list_def build_query_def matches_def sample_db_def
        parse_created_at_def nike_time)
  note A = get_coupons_empty_parameter_is_absent
    [where str_lower = ascii_lower and db = sample_db and s = "Some []" and f = "Some False" and c = None]
  note B = get_coupons_empty_parameter_is_absent
    [where str_lower = ascii_lower and db = sample_db and s = None and f = None and c = None]
  have c: "get_coupons ascii_lower sample_db (Some []) (Some []) (Some False)
      = get_coupons ascii_lower sample_db None None (Some False)"
    using A by simp
  have d: "get_coupons ascii_lower sample_db None None (Some False)
      = get_coupons ascii_lower (sample_db\<lparr>coupons := [nike_doc]\<rparr>) None None None"
    using B unfolding f by blast
  show ?thesis
    unfolding c d a b by simp
qed

end
